theory Spec2Isabelle
  imports Main "HOL-Library.Multiset"
begin

section \<open>Data model\<close>

text \<open>
  The plugin keeps one document per hook in a MongoDB collection and runs, for each
  hook, the list of actions configured under the hook's name. JavaScript values that
  the plugin only passes along (payload fields, handler outputs, error objects) are
  kept opaque and written as strings. An object used as a bag of fields (the hook's
  \<open>hookData\<close>, an action's default \<open>data\<close>) is a finite map from field names
  to values; \<open>Object.assign(target, source)\<close> is then \<open>target ++ source\<close>.
\<close>

type_synonym jsval = string

type_synonym payload = "string \<rightharpoonup> jsval"

text \<open>The four strings the code writes into a document's \<open>status\<close> field.\<close>

datatype status = Waiting | Processing | Complete | Failed

text \<open>
  One element of a hook's \<open>results\<close> array: \<open>{ action, output }\<close> or
  \<open>{ action, error }\<close>.
\<close>

datatype entry = Output string jsval | Error string jsval

text \<open>
  A stored document. \<open>runAfter\<close>, \<open>results\<close> and \<open>completedOn\<close> are absent
  (\<open>None\<close>) until some update sets them. Dates are milliseconds since the epoch.
\<close>

record job =
  job_id :: nat
  hookName :: string
  hookData :: payload
  status :: status
  added :: nat
  runAfter :: "nat option"
  results :: "entry list option"
  completedOn :: "nat option"

type_synonym collection = "job list"

text \<open>
  An entry of a configured action list: a string (a dotted path into
  \<open>server.methods\<close>, or a call expression such as \<open>''notify(user)''\<close>), or an object
  \<open>{ method, data }\<close>. The \<open>data\<close> of an object entry may be missing.
\<close>

datatype action = Name string | Obj "payload option" string

text \<open>
  The plugin's settings. \<open>timeout = 0\<close> stands for a falsy \<open>timeout\<close>
  (\<open>false\<close> or \<open>0\<close>); \<open>batchSize = 0\<close> is the default of the settings.
  The defaults have no \<open>hooks\<close>: \<open>hooks_undefined\<close> holds when the options
  gave none either, so that \<open>settings.hooks\<close> is \<open>undefined\<close>. Otherwise
  \<open>hooks\<close> holds the own keys of the object \<open>settings.hooks\<close>, each with its
  action list.
\<close>

record settings =
  timeout :: nat
  interval :: nat
  log :: bool
  batchSize :: nat
  hooks_undefined :: bool
  hooks :: "string \<rightharpoonup> action list"

text \<open>
  Reading \<open>object[key]\<close> on a plain object: an own key gives its value; a name
  that every plain object inherits from \<open>Object.prototype\<close> gives the inherited
  function (for \<open>__proto__\<close>, the prototype itself); any other name gives
  \<open>undefined\<close>.
\<close>

definition object_prototype_names :: "string list" where
  "object_prototype_names =
     [''constructor'', ''hasOwnProperty'', ''isPrototypeOf'', ''propertyIsEnumerable'',
      ''toLocaleString'', ''toString'', ''valueOf'', ''__proto__'',
      ''__defineGetter__'', ''__defineSetter__'', ''__lookupGetter__'', ''__lookupSetter__'']"

datatype 'a property = Own 'a | Inherited | Absent

definition get_property :: "(string \<rightharpoonup> 'a) \<Rightarrow> string \<Rightarrow> 'a property" where
  "get_property object key =
     (case object key of
        Some v \<Rightarrow> Own v
      | None \<Rightarrow> if key \<in> set object_prototype_names then Inherited else Absent)"

text \<open>
  What \<open>!value\<close> tests. An own value of the hooks table is an array, which is
  truthy also when it is empty; an inherited function or object is truthy;
  \<open>undefined\<close> is not.
\<close>

fun truthy :: "'a property \<Rightarrow> bool" where
  "truthy (Own v) = True"
| "truthy Inherited = True"
| "truthy Absent = False"

section \<open>The store: queries\<close>

text \<open>
  The two filters the code passes to \<open>collection.find\<close>:
  \<open>{ status: 'waiting' }\<close> and
  \<open>{ status: { $in: [...] }, runAfter: { $lte: new Date() } }\<close>.
  A document without a \<open>runAfter\<close> field does not match a \<open>$lte\<close> condition on it.
\<close>

record query =
  q_status_in :: "status list"
  q_runAfter_lte :: "nat option"

definition matches :: "query \<Rightarrow> job \<Rightarrow> bool" where
  "matches q j =
     (status j \<in> set (q_status_in q) \<and>
      (case q_runAfter_lte q of
         None \<Rightarrow> True
       | Some d \<Rightarrow> (case runAfter j of None \<Rightarrow> False | Some t \<Rightarrow> t \<le> d)))"

definition collection_find :: "collection \<Rightarrow> query \<Rightarrow> job list" where
  "collection_find coll q = filter (matches q) coll"

text \<open>\<open>cursor.limit(n)\<close>: a limit of 0 is no limit.\<close>

definition cursor_limit :: "nat \<Rightarrow> job list \<Rightarrow> job list" where
  "cursor_limit n docs = (if n = 0 then docs else take n docs)"

text \<open>
  \<open>cursor.toArray(callback)\<close>: the store either reports an error or hands over
  the documents. The error, if any, is the environment's choice.
\<close>

definition toArray :: "string option \<Rightarrow> job list \<Rightarrow> string + job list" where
  "toArray dbErr docs = (case dbErr of Some e \<Rightarrow> Inl e | None \<Rightarrow> Inr docs)"

section \<open>Effects\<close>

text \<open>
  What a piece of the plugin does to the outside, in the order it does it: a
  \<open>server.log(tags, message)\<close>, a \<open>server.emit(event)\<close>, a query
  \<open>collection.find(filter).limit(n)\<close>, the start of the execution of the hook with
  a given \<open>_id\<close>, a \<open>setTimeout(timer, ms)\<close>.
\<close>

datatype effect =
    ServerLog "string list" string
  | Emit string
  | Find query nat
  | Execute nat
  | SetTimeout nat

section \<open>Fetching the hooks that are due\<close>

text \<open>
  The \<open>hooks\<close> task of the polling module built on \<open>async.autoInject\<close>.
  Its argument \<open>logHooks\<close> is the result of the task before it (whether to proceed).
\<close>

definition hooks_task ::
  "settings \<Rightarrow> collection \<Rightarrow> nat \<Rightarrow> string option \<Rightarrow> bool \<Rightarrow>
     effect list \<times> (string + job list)" where
  "hooks_task st coll now dbErr logHooks =
     (if \<not> logHooks then ([], Inr [])
      else ([Find \<lparr>q_status_in = [Waiting, Failed], q_runAfter_lte = Some now\<rparr> (batchSize st)],
            toArray dbErr
              (cursor_limit (batchSize st)
                 (collection_find coll
                    \<lparr>q_status_in = [Waiting, Failed], q_runAfter_lte = Some now\<rparr>))))"

text \<open>
  The first stage of \<open>queryHooks\<close> (the module built on \<open>automap\<close>): on a store
  error or an empty result it calls \<open>allDone\<close> itself, otherwise it hands the
  documents to the next stage.
\<close>

datatype fetched = AllDone "string option" | Proceed "job list"

definition queryHooks_fetch ::
  "settings \<Rightarrow> collection \<Rightarrow> nat \<Rightarrow> string option \<Rightarrow> fetched" where
  "queryHooks_fetch st coll now dbErr =
     (case toArray dbErr
             (cursor_limit (batchSize st)
                (collection_find coll
                   \<lparr>q_status_in = [Waiting, Failed], q_runAfter_lte = Some now\<rparr>)) of
        Inl e \<Rightarrow> AllDone (Some e)
      | Inr docs \<Rightarrow> if length docs = 0 then AllDone None else Proceed docs)"

text \<open>
  The first stage of \<open>updateHooks\<close> in \<open>index.js\<close>, the older poller: every
  waiting document, with no condition on \<open>runAfter\<close> and no limit.
\<close>

definition updateHooks_fetch :: "collection \<Rightarrow> string option \<Rightarrow> fetched" where
  "updateHooks_fetch coll dbErr =
     (case toArray dbErr
             (collection_find coll \<lparr>q_status_in = [Waiting], q_runAfter_lte = None\<rparr>) of
        Inl e \<Rightarrow> AllDone (Some e)
      | Inr docs \<Rightarrow> if length docs = 0 then AllDone None else Proceed docs)"

text \<open>What the spec calls a job that is due at time \<open>now\<close>.\<close>

definition due :: "nat \<Rightarrow> job \<Rightarrow> bool" where
  "due now j =
     ((status j = Waiting \<or> status j = Failed) \<and>
      (case runAfter j of None \<Rightarrow> False | Some t \<Rightarrow> t \<le> now))"

section \<open>Handlers and the host's method table\<close>

text \<open>
  What a handler does when it is invoked with a payload and a callback: it throws
  before returning (\<open>Throws name message\<close>); or it calls \<open>callback(error, output)\<close>
  once, \<open>t\<close> milliseconds after the invocation (\<open>t = 0\<close>: before it returns), where
  the error is \<open>None\<close> when it is falsy; or it never calls back.
\<close>

datatype behaviour = Throws string string | Calls nat "jsval option" jsval | Never

type_synonym handler = "payload \<Rightarrow> behaviour"

text \<open>
  The host: \<open>methods\<close> is \<open>get(server.methods, path)\<close>, \<open>None\<close> for a path that
  leads nowhere. \<open>str2fn_execute\<close> stands for the library call
  \<open>str2fn.execute(expression, server.methods, context, callback)\<close>: what evaluating
  the call expression against the method table does, seen from its callback.
\<close>

record server =
  methods :: "string \<rightharpoonup> handler"
  str2fn_execute :: "string \<Rightarrow> payload \<Rightarrow> behaviour"

definition etimedout :: jsval where
  "etimedout = ''ETIMEDOUT''"

text \<open>
  \<open>async.timeout(fn, ms)\<close>: the wrapped function calls back with \<open>fn\<close>'s own
  answer when that comes before the deadline, and with an \<open>ETIMEDOUT\<close> error at the
  deadline otherwise. Its timer is set before \<open>fn\<close> is invoked, so an answer at
  exactly \<open>ms\<close> loses against it. A handler that throws ends the wrapped call
  with its exception; what the timer of the wrapper does after that is left out.
\<close>

definition async_timeout :: "handler \<Rightarrow> nat \<Rightarrow> handler" where
  "async_timeout fn ms =
     (\<lambda>args. case fn args of
        Throws n m \<Rightarrow> Throws n m
      | Calls t error output \<Rightarrow>
          if t < ms then Calls t error output else Calls ms (Some etimedout) []
      | Never \<Rightarrow> Calls ms (Some etimedout) [])"

section \<open>Executing the actions of one hook\<close>

text \<open>The test \<open>action[action.length - 1] === ')' && action.indexOf('(') > -1\<close>.\<close>

definition is_call_expression :: "string \<Rightarrow> bool" where
  "is_call_expression action =
     (action \<noteq> [] \<and> last action = CHR '')'' \<and> CHR ''('' \<in> set action)"

text \<open>
  \<open>settings.timeout ? async.timeout(get(server.methods, action), settings.timeout)
  : get(server.methods, action)\<close>; \<open>None\<close> is a call target that is not a function.
  Calling it throws a \<open>TypeError\<close>, which \<open>invoke\<close> below places inside the
  \<open>try\<close> with and without a timeout.
\<close>

definition actionCall :: "settings \<Rightarrow> server \<Rightarrow> string \<Rightarrow> handler option" where
  "actionCall st srv action =
     (if timeout st \<noteq> 0
      then map_option (\<lambda>fn. async_timeout fn (timeout st)) (methods srv action)
      else methods srv action)"

text \<open>
  How one run of the iteratee of \<open>async.each\<close> ends: at time \<open>t\<close> it pushes an entry
  onto \<open>updateHook.results\<close> and calls \<open>eachDone\<close>; or it does neither, ever; or an
  exception leaves the iteratee.
\<close>

datatype settled = At nat entry | Pending | Uncaught string string

text \<open>The callback \<open>(error, output) => { if (error) ... else ...; return eachDone(); }\<close>.\<close>

definition callback_entry :: "string \<Rightarrow> jsval option \<Rightarrow> jsval \<Rightarrow> entry" where
  "callback_entry action error output =
     (case error of Some e \<Rightarrow> Error action e | None \<Rightarrow> Output action output)"

text \<open>
  The part of the iteratee after the merge of the default parameters. A call
  expression goes to \<open>str2fn.execute\<close> with a copy of the hook's data and returns at
  once: no timeout wrapper, no \<open>try\<close>. Any other action is looked up, wrapped
  when a timeout is set, and called inside \<open>try\<close>; the \<open>catch\<close> records
  \<open>`${e.name} ${e.message} `\<close> as the error of the action.
\<close>

definition invoke :: "settings \<Rightarrow> server \<Rightarrow> payload \<Rightarrow> string \<Rightarrow> payload \<Rightarrow> settled" where
  "invoke st srv hook_data action actionData =
     (if is_call_expression action then
        (case str2fn_execute srv action hook_data of
           Throws n m \<Rightarrow> Uncaught n m
         | Calls t error output \<Rightarrow> At t (callback_entry action error output)
         | Never \<Rightarrow> Pending)
      else
        (case actionCall st srv action of
           None \<Rightarrow> At 0 (Error action (''TypeError'' @ '' '' @ ''actionCall is not a function'' @ '' ''))
         | Some call \<Rightarrow>
             (case call actionData of
                Throws n m \<Rightarrow> At 0 (Error action (n @ '' '' @ m @ '' ''))
              | Calls t error output \<Rightarrow> At t (callback_entry action error output)
              | Never \<Rightarrow> Pending)))"

text \<open>
  The iteratee. For an object entry, \<open>Object.assign(action.data, actionData)\<close> writes
  the hook's fields into the configured \<open>data\<close> object itself and returns that
  object, so the entry of the configuration changes: the function returns the entry
  as it is afterwards. \<open>Object.assign\<close> throws a \<open>TypeError\<close> when \<open>action.data\<close>
  is missing, outside the \<open>try\<close>.
\<close>

fun iteratee :: "settings \<Rightarrow> server \<Rightarrow> payload \<Rightarrow> action \<Rightarrow> action \<times> settled" where
  "iteratee st srv hook_data (Name action) =
     (Name action, invoke st srv hook_data action hook_data)"
| "iteratee st srv hook_data (Obj None action) =
     (Obj None action, Uncaught ''TypeError'' ''Cannot convert undefined or null to object'')"
| "iteratee st srv hook_data (Obj (Some d) action) =
     (Obj (Some (d ++ hook_data)) action, invoke st srv hook_data action (d ++ hook_data))"

text \<open>
  \<open>async.each\<close> starts the iteratee on every element in turn, in the declared
  order; an exception that leaves an iteratee ends the loop, and the elements after
  it are not started.
\<close>

fun launch :: "settings \<Rightarrow> server \<Rightarrow> payload \<Rightarrow> action list \<Rightarrow> action list \<times> settled list" where
  "launch st srv hook_data [] = ([], [])"
| "launch st srv hook_data (a # as) =
     (case iteratee st srv hook_data a of
        (a', s) \<Rightarrow>
          (case s of
             Uncaught n m \<Rightarrow> (a' # as, [s])
           | _ \<Rightarrow> (case launch st srv hook_data as of (as', ss) \<Rightarrow> (a' # as', s # ss))))"

text \<open>
  How a run over several elements ends: \<open>Finished\<close> when the final callback of
  \<open>async.each\<close> is called (every iteratee has called \<open>eachDone\<close>), \<open>Hangs\<close> when
  it never is, \<open>Crashes\<close> when an exception left the loop.
\<close>

datatype 'a outcome = Finished 'a | Hangs | Crashes string string

fun each_outcome :: "settled list \<Rightarrow> (nat \<times> entry) list outcome" where
  "each_outcome [] = Finished []"
| "each_outcome (Uncaught n m # ss) = Crashes n m"
| "each_outcome (Pending # ss) =
     (case each_outcome ss of Crashes n m \<Rightarrow> Crashes n m | _ \<Rightarrow> Hangs)"
| "each_outcome (At t e # ss) =
     (case each_outcome ss of
        Finished tes \<Rightarrow> Finished ((t, e) # tes)
      | Hangs \<Rightarrow> Hangs
      | Crashes n m \<Rightarrow> Crashes n m)"

text \<open>
  The callbacks run in the order of their times; those of one time run in the order
  in which the actions were started.
\<close>

definition completion_order :: "(nat \<times> entry) list \<Rightarrow> (nat \<times> entry) list" where
  "completion_order tes = sort_key fst tes"

text \<open>The object \<open>updateHook\<close> of \<open>performActions\<close>; \<open>status\<close> is unset at first.\<close>

record updateHook =
  uh_results :: "entry list"
  uh_status :: "status option"

fun push :: "updateHook \<Rightarrow> entry \<Rightarrow> updateHook" where
  "push u (Error action error) =
     u\<lparr>uh_results := uh_results u @ [Error action error], uh_status := Some Failed\<rparr>"
| "push u (Output action output) =
     u\<lparr>uh_results := uh_results u @ [Output action output]\<rparr>"

text \<open>
  \<open>performActions\<close>: the settings as the run leaves them, and the \<open>updateHook\<close>
  handed to \<open>done\<close>. Reading \<open>settings.hooks[hook.hookName]\<close> throws when
  \<open>settings.hooks\<close> is \<open>undefined\<close>. A hook name without an action list of its
  own (the value is \<open>undefined\<close>, or an inherited function or object, which has
  no keys of its own to go over) gives \<open>async.each\<close> nothing to iterate over.
\<close>

definition performActions ::
  "settings \<Rightarrow> server \<Rightarrow> job \<Rightarrow> settings \<times> updateHook outcome" where
  "performActions st srv hook =
     (if hooks_undefined st
      then (st, Crashes ''TypeError'' ''Cannot read property of undefined'')
      else
        (case hooks st (hookName hook) of
           None \<Rightarrow> (st, Finished \<lparr>uh_results = [], uh_status = None\<rparr>)
         | Some actions \<Rightarrow>
             (case launch st srv (hookData hook) actions of
                (actions', ss) \<Rightarrow>
                  (st\<lparr>hooks := (hooks st)(hookName hook \<mapsto> actions')\<rparr>,
                   case each_outcome ss of
                     Finished tes \<Rightarrow>
                       Finished (foldl push \<lparr>uh_results = [], uh_status = None\<rparr>
                                   (map snd (completion_order tes)))
                   | Hangs \<Rightarrow> Hangs
                   | Crashes n m \<Rightarrow> Crashes n m))))"



fun is_error :: "entry \<Rightarrow> bool" where
  "is_error (Error action error) = True"
| "is_error (Output action output) = False"

section \<open>The store: writes\<close>

text \<open>
  \<open>collection.update({ _id: i }, { $set: fields }, callback)\<close>: the first document
  with that \<open>_id\<close> gets the fields, unless the store reports an error, in which
  case nothing is written. \<open>findOne\<close> reads the first document with the \<open>_id\<close>.
\<close>

fun update_one :: "nat \<Rightarrow> (job \<Rightarrow> job) \<Rightarrow> collection \<Rightarrow> collection" where
  "update_one i f [] = []"
| "update_one i f (d # ds) = (if job_id d = i then f d # ds else d # update_one i f ds)"

definition collection_update ::
  "collection \<Rightarrow> nat \<Rightarrow> (job \<Rightarrow> job) \<Rightarrow> string option \<Rightarrow> collection" where
  "collection_update coll i set_fields err =
     (case err of Some e \<Rightarrow> coll | None \<Rightarrow> update_one i set_fields coll)"

fun findOne :: "collection \<Rightarrow> nat \<Rightarrow> job option" where
  "findOne [] i = None"
| "findOne (d # ds) i = (if job_id d = i then Some d else findOne ds i)"

text \<open>
  \<open>collection.insertOne(doc, callback)\<close>: the store gives the document an \<open>_id\<close>
  that no stored document has, unless it reports an error.
\<close>

definition fresh_id :: "collection \<Rightarrow> nat" where
  "fresh_id coll = Suc (foldr max (map job_id coll) 0)"

definition insertOne :: "collection \<Rightarrow> job \<Rightarrow> string option \<Rightarrow> collection" where
  "insertOne coll doc err =
     (case err of Some e \<Rightarrow> coll | None \<Rightarrow> coll @ [doc\<lparr>job_id := fresh_id coll\<rparr>])"

section \<open>Running one hook\<close>

text \<open>
  The four tasks that \<open>updateHooks\<close> runs for a fetched hook, each after the one
  before it. What the store answers to the two updates, and the date of the second,
  are the environment's.
\<close>

record store_env =
  logHook_err :: "string option"
  completeHook_err :: "string option"
  completed_at :: nat

text \<open>
  \<open>logHook\<close>: set the status to processing; log an error of the update; log the
  start when logging is on; then \<open>done()\<close>, with no error, in every case.
\<close>

definition logHook ::
  "settings \<Rightarrow> collection \<Rightarrow> job \<Rightarrow> string option \<Rightarrow> collection \<times> effect list" where
  "logHook st coll hook err =
     (collection_update coll (job_id hook) (\<lambda>d. d\<lparr>status := Processing\<rparr>) err,
      (case err of Some e \<Rightarrow> [ServerLog [''hapi-hooks'', ''error''] e] | None \<Rightarrow> []) @
      (if log st
       then [ServerLog [''hapi-hooks'', ''starting-hook'', ''debug''] ''Processing underway for hook'']
       else []))"

text \<open>
  \<open>completeHook\<close>: one update that sets \<open>results\<close>, \<open>status\<close> and
  \<open>completedOn\<close>; the answer of the store goes to \<open>done\<close>.
\<close>

definition completeHook ::
  "collection \<Rightarrow> job \<Rightarrow> updateHook \<Rightarrow> nat \<Rightarrow> string option \<Rightarrow> collection" where
  "completeHook coll hook performed now err =
     collection_update coll (job_id hook)
       (\<lambda>d. d\<lparr>results := Some (uh_results performed),
               status := (if uh_status performed = Some Failed then Failed else Complete),
               completedOn := Some now\<rparr>)
       err"

definition logComplete :: "settings \<Rightarrow> effect list" where
  "logComplete st =
     (if log st then [ServerLog [''hapi-hooks'', ''complete'', ''debug''] ''Hook complete''] else [])"

text \<open>
  The chain for one hook. It ends with \<open>Finished (Inr performed)\<close> when the four
  tasks have run, with \<open>Finished (Inl e)\<close> when \<open>completeHook\<close> passed the error
  \<open>e\<close> on (the last task is then not run), and it hangs or crashes when
  \<open>performActions\<close> does.
\<close>

record run =
  run_settings :: settings
  run_collection :: collection
  run_effects :: "effect list"
  run_outcome :: "(string + updateHook) outcome"

definition executeHook ::
  "settings \<Rightarrow> server \<Rightarrow> store_env \<Rightarrow> collection \<Rightarrow> job \<Rightarrow> run" where
  "executeHook st srv env coll hook =
     (case logHook st coll hook (logHook_err env) of
        (coll1, eff1) \<Rightarrow>
          (case performActions st srv hook of
             (st1, Finished performed) \<Rightarrow>
               (case completeHook_err env of
                  Some e \<Rightarrow>
                    \<lparr>run_settings = st1,
                     run_collection =
                       completeHook coll1 hook performed (completed_at env) (Some e),
                     run_effects = eff1, run_outcome = Finished (Inl e)\<rparr>
                | None \<Rightarrow>
                    \<lparr>run_settings = st1,
                     run_collection =
                       completeHook coll1 hook performed (completed_at env) None,
                     run_effects = eff1 @ logComplete st,
                     run_outcome = Finished (Inr performed)\<rparr>)
           | (st1, Hangs) \<Rightarrow>
               \<lparr>run_settings = st1, run_collection = coll1, run_effects = eff1,
                run_outcome = Hangs\<rparr>
           | (st1, Crashes n m) \<Rightarrow>
               \<lparr>run_settings = st1, run_collection = coll1, run_effects = eff1,
                run_outcome = Crashes n m\<rparr>))"

section \<open>Enqueueing\<close>

text \<open>
  \<open>hook(hookName, hookData)\<close> of \<open>index.js\<close>. The guard reads
  \<open>settings.hooks[hookName]\<close>: that throws a \<open>TypeError\<close> to the caller when
  \<open>settings.hooks\<close> is \<open>undefined\<close>, and it finds inherited properties as well
  as own keys. When the value is falsy the function returns at once; otherwise it
  calls \<open>insertOne\<close>, whose error is logged and not handed to the caller.
\<close>

definition hook ::
  "settings \<Rightarrow> collection \<Rightarrow> nat \<Rightarrow> string option \<Rightarrow> string \<Rightarrow> payload \<Rightarrow>
     string + collection \<times> effect list" where
  "hook st coll now insertErr hook_name hook_data =
     (if hooks_undefined st then Inl ''TypeError''
      else if \<not> truthy (get_property (hooks st) hook_name) then Inr (coll, [])
      else
        Inr (insertOne coll
               \<lparr>job_id = 0, hookName = hook_name, hookData = hook_data, status = Waiting,
                added = now, runAfter = None, results = None, completedOn = None\<rparr>
               insertErr,
             (case insertErr of
                Some e \<Rightarrow> [ServerLog [''hapi-hooks'', ''error''] e]
              | None \<Rightarrow> []) @
             (if log st
              then [ServerLog [''hapi-hooks'', ''new-hook'', ''debug''] ''Registering a new hook'']
              else [])))"

section \<open>Polling with backpressure\<close>

text \<open>
  The numbers of stored hooks by status, as the status query reports them.
\<close>

record counts =
  processing :: nat
  waiting :: nat
  completed :: nat

text \<open>
  The polling module built on \<open>async.autoInject\<close>. Its first task asks for the
  counts; they are the argument \<open>outstandingHooks\<close> here. \<open>logHooks\<close> decides
  whether to proceed, \<open>hooks\<close> (above) fetches, \<open>execute\<close> starts every fetched
  hook. \<open>execErr\<close> is the error, if any, that the executions report.
\<close>

definition logHooks_task :: "settings \<Rightarrow> counts \<Rightarrow> effect list \<times> bool" where
  "logHooks_task st outstandingHooks =
     (let proceed = (processing outstandingHooks = 0) in
      ([Emit ''hook:query''] @
       (if log st then [ServerLog [''hapi-hooks'', ''status''] ''outstanding hooks''] else []) @
       (if \<not> proceed \<and> log st
        then [ServerLog [''hapi-hooks'', ''warning''] ''There are still hooks in the queue.'']
        else []),
       proceed))"

definition execute_task :: "job list \<Rightarrow> string option \<Rightarrow> effect list \<times> string option" where
  "execute_task hks execErr =
     (concat (map (\<lambda>hk. [Emit ''hook:start'', Execute (job_id hk)]) hks),
      if hks = [] then None else execErr)"

definition poll_hooks ::
  "settings \<Rightarrow> collection \<Rightarrow> nat \<Rightarrow> string option \<Rightarrow> string option \<Rightarrow> counts \<Rightarrow>
     effect list \<times> string option" where
  "poll_hooks st coll now dbErr execErr outstandingHooks =
     (case logHooks_task st outstandingHooks of
        (eff1, proceed) \<Rightarrow>
          (case hooks_task st coll now dbErr proceed of
             (eff2, Inl e) \<Rightarrow> (eff1 @ eff2, Some e)
           | (eff2, Inr hks) \<Rightarrow>
               (case execute_task hks execErr of
                  (eff3, err) \<Rightarrow> (eff1 @ eff2 @ eff3, err))))"

text \<open>
  \<open>queryHooks\<close>, the module built on \<open>automap\<close>: one query, then the execution
  of every fetched hook; the effects, and the error handed to \<open>allDone\<close>.
\<close>

definition queryHooks ::
  "settings \<Rightarrow> collection \<Rightarrow> nat \<Rightarrow> string option \<Rightarrow> string option \<Rightarrow>
     effect list \<times> string option" where
  "queryHooks st coll now dbErr execErr =
     (case queryHooks_fetch st coll now dbErr of
        AllDone e \<Rightarrow>
          ([Find \<lparr>q_status_in = [Waiting, Failed], q_runAfter_lte = Some now\<rparr> (batchSize st)], e)
      | Proceed docs \<Rightarrow>
          ([Find \<lparr>q_status_in = [Waiting, Failed], q_runAfter_lte = Some now\<rparr> (batchSize st)] @
           map (\<lambda>hk. Execute (job_id hk)) docs,
           execErr))"

text \<open>
  One tick of the timer that waits for outstanding hooks. \<open>go\<close> is the flag
  \<open>continueProcessing\<close> when the timer fires, \<open>go'\<close> is the flag when
  \<open>queryHooks\<close> calls back; \<open>countErr\<close> and \<open>current\<close> are what \<open>logHooks\<close>
  answers; \<open>query\<close> is what a call of \<open>queryHooks\<close> does and reports. The
  counts are taken to be there also when \<open>logHooks\<close> reports an error.
\<close>

definition timer_outstanding ::
  "settings \<Rightarrow> bool \<Rightarrow> string option \<Rightarrow> counts \<Rightarrow> effect list \<times> string option \<Rightarrow> bool \<Rightarrow>
     effect list" where
  "timer_outstanding st go countErr current query go' =
     (if \<not> go then []
      else
        (case countErr of Some e \<Rightarrow> [ServerLog [''hapi-hooks'', ''error''] e] | None \<Rightarrow> []) @
        (if log st then [ServerLog [''hapi-hooks'', ''Status''] ''processing, waiting, completed''] else []) @
        (if processing current \<noteq> 0 then [SetTimeout (interval st)]
         else fst query @
              (case snd query of Some e \<Rightarrow> [ServerLog [''hapi-hooks'', ''error''] e] | None \<Rightarrow> []) @
              (if go' then [SetTimeout (interval st)] else [])))"

text \<open>The effects that fetch hooks or start one, and those that only log.\<close>

fun fetches_or_starts :: "effect \<Rightarrow> bool" where
  "fetches_or_starts (Find q n) = True"
| "fetches_or_starts (Execute i) = True"
| "fetches_or_starts (Emit ev) = (ev = ''hook:start'')"
| "fetches_or_starts (ServerLog tags message) = False"
| "fetches_or_starts (SetTimeout ms) = False"

fun is_log :: "effect \<Rightarrow> bool" where
  "is_log (ServerLog tags message) = True"
| "is_log (Emit ev) = False"
| "is_log (Find q n) = False"
| "is_log (Execute i) = False"
| "is_log (SetTimeout ms) = False"

section \<open>The timer of \<open>index.js\<close>\<close>

text \<open>
  The state of one registered plugin, as far as its timer goes: the flag, the
  timeouts set by \<open>setTimeout(timer, interval)\<close> that have not fired yet, the runs
  of \<open>updateHooks\<close> that have not called back yet, and counters of the timeouts set
  and the runs started so far.
\<close>

record scheduler =
  continueProcessing :: bool
  timers_pending :: nat
  cycles_in_flight :: nat
  ticks_scheduled :: nat
  cycles_started :: nat
  errors_logged :: "string list"

text \<open>\<open>timer\<close>: return when the flag is down, else start \<open>updateHooks\<close>.\<close>

definition timer :: "scheduler \<Rightarrow> scheduler" where
  "timer s =
     (if \<not> continueProcessing s then s
      else s\<lparr>cycles_in_flight := Suc (cycles_in_flight s),
             cycles_started := Suc (cycles_started s)\<rparr>)"

text \<open>The callback that \<open>timer\<close> gives to \<open>updateHooks\<close>.\<close>

definition updateHooks_callback :: "string option \<Rightarrow> scheduler \<Rightarrow> scheduler" where
  "updateHooks_callback err s =
     (let s1 = (case err of
                  Some e \<Rightarrow> s\<lparr>errors_logged := errors_logged s @ [e]\<rparr>
                | None \<Rightarrow> s)
      in if continueProcessing s1
         then s1\<lparr>timers_pending := Suc (timers_pending s1),
                 ticks_scheduled := Suc (ticks_scheduled s1)\<rparr>
         else s1)"

text \<open>The \<open>onPreStop\<close> extension.\<close>

definition onPreStop :: "scheduler \<Rightarrow> scheduler" where
  "onPreStop s = s\<lparr>continueProcessing := False\<rparr>"

text \<open>\<open>register\<close> sets the flag and calls \<open>timer()\<close> once.\<close>

definition registered :: scheduler where
  "registered =
     timer \<lparr>continueProcessing = True, timers_pending = 0, cycles_in_flight = 0,
            ticks_scheduled = 0, cycles_started = 0, errors_logged = []\<rparr>"

text \<open>
  What can happen next: a pending timeout fires and runs \<open>timer\<close>; a run of
  \<open>updateHooks\<close> that is in flight calls its callback, once, with or without an
  error; the server announces its stop.
\<close>

inductive step :: "scheduler \<Rightarrow> scheduler \<Rightarrow> bool" where
  timer_fires:
    "0 < timers_pending s \<Longrightarrow>
     step s (timer (s\<lparr>timers_pending := timers_pending s - 1\<rparr>))"
| cycle_done:
    "0 < cycles_in_flight s \<Longrightarrow>
     step s (updateHooks_callback err (s\<lparr>cycles_in_flight := cycles_in_flight s - 1\<rparr>))"
| pre_stop:
    "step s (onPreStop s)"

text \<open>At most one of the two exists at a time: a run in flight, a pending timeout.\<close>

definition sched_inv :: "scheduler \<Rightarrow> bool" where
  "sched_inv s = (cycles_in_flight s + timers_pending s \<le> 1)"

section \<open>Retrying a hook\<close>

text \<open>
  The errors a retry can end with according to the spec, besides an error of the
  store. Nothing in the code builds \<open>NotFound\<close> or \<open>RetryExhausted\<close>.
\<close>

datatype error = StoreError string | NotFound | RetryExhausted

text \<open>A call \<open>callback(err, result)\<close> of the callback given to \<open>retryHook\<close>.\<close>

datatype reply = Reply "error option" "updateHook option"

text \<open>
  \<open>lib/retry.js\<close> exports \<open>(collection, hookId, allDone) => {}\<close>: a function of
  three parameters with an empty body. Whatever it is called with, it reads nothing,
  writes nothing, calls nothing and returns. The tasks that were meant to be its
  body (find the hook, mark it as processing, execute it) follow the export as a
  statement of their own and are no part of the function; what comes after them in
  the file is not well-formed and is not modelled.
\<close>

definition retry :: "'a \<Rightarrow> 'b \<Rightarrow> 'c \<Rightarrow> unit" where
  "retry collection hookId allDone = ()"

text \<open>
  \<open>retryHook(hookId, callback)\<close> calls
  \<open>retry(server, settings, collection, hookId, wrapper)\<close>, where the wrapper would
  pass an error, or else \<open>response.performActions\<close>, on to \<open>callback\<close>. The first
  three arguments are bound to the three parameters of \<open>retry\<close>; the hook's id and
  the wrapper are bound to none. The result is the collection after the call and
  the calls of \<open>callback\<close> that were made.
\<close>

definition retryHook ::
  "server \<Rightarrow> settings \<Rightarrow> collection \<Rightarrow> nat \<Rightarrow> collection \<times> reply list" where
  "retryHook srv st coll hookId = (let returned = retry srv st coll in (coll, []))"

section \<open>A small installation\<close>

text \<open>
  Concrete documents, settings and hosts, on which the statements below are run.
\<close>

definition job_due :: job where
  "job_due = \<lparr>job_id = 1, hookName = ''welcome'', hookData = Map.empty, status = Waiting,
     added = 10, runAfter = Some 10, results = None, completedOn = None\<rparr>"

definition job_later :: job where
  "job_later = \<lparr>job_id = 2, hookName = ''welcome'', hookData = Map.empty, status = Failed,
     added = 20, runAfter = Some 500, results = None, completedOn = None\<rparr>"

definition job_retry :: job where
  "job_retry = \<lparr>job_id = 3, hookName = ''welcome'', hookData = Map.empty, status = Failed,
     added = 30, runAfter = Some 30, results = None, completedOn = None\<rparr>"

definition job_future :: job where
  "job_future = \<lparr>job_id = 7, hookName = ''welcome'', hookData = Map.empty, status = Waiting,
     added = 70, runAfter = Some 500, results = None, completedOn = None\<rparr>"

definition welcome_settings :: settings where
  "welcome_settings = \<lparr>timeout = 30, interval = 1000, log = False, batchSize = 1,
     hooks_undefined = False,
     hooks = [''welcome'' \<mapsto> [Name ''sendEmail'', Name ''logAudit'']]\<rparr>"

text \<open>
  A host whose \<open>sendEmail\<close> answers after 20 ms and whose \<open>logAudit\<close> answers
  after 10 ms; a call expression evaluated by \<open>str2fn\<close> answers after 50 ms.
\<close>

definition mail_server :: server where
  "mail_server =
     \<lparr>methods = [''sendEmail'' \<mapsto> (\<lambda>d. Calls 20 None ''sent''),
                 ''logAudit'' \<mapsto> (\<lambda>d. Calls 10 None ''logged'')],
      str2fn_execute = (\<lambda>expression context. Calls 50 None ''late'')\<rparr>"

definition quiet_store :: store_env where
  "quiet_store = \<lparr>logHook_err = None, completeHook_err = None, completed_at = 200\<rparr>"

text \<open>A host whose \<open>sendEmail\<close> never answers.\<close>

definition slow_server :: server where
  "slow_server =
     \<lparr>methods = [''sendEmail'' \<mapsto> (\<lambda>d. Never),
                 ''logAudit'' \<mapsto> (\<lambda>d. Calls 10 None ''logged'')],
      str2fn_execute = (\<lambda>expression context. Never)\<rparr>"

text \<open>A store that rejects the update of \<open>logHook\<close> and accepts the one after it.\<close>

definition failing_mark :: store_env where
  "failing_mark =
     \<lparr>logHook_err = Some ''store unreachable'', completeHook_err = None, completed_at = 200\<rparr>"



definition job_ann :: job where
  "job_ann = \<lparr>job_id = 4, hookName = ''greet'', hookData = [''user'' \<mapsto> ''ann''], status = Waiting,
     added = 40, runAfter = Some 40, results = None, completedOn = None\<rparr>"


text \<open>
  A hook whose first action is a call expression, with a timeout of 30 ms.
\<close>

definition report_settings :: settings where
  "report_settings = \<lparr>timeout = 30, interval = 1000, log = False, batchSize = 0,
     hooks_undefined = False,
     hooks = [''report'' \<mapsto> [Name ''notify(user)'', Name ''logAudit'']]\<rparr>"

definition job_report :: job where
  "job_report = \<lparr>job_id = 6, hookName = ''report'', hookData = [''user'' \<mapsto> ''ann''],
     status = Waiting, added = 60, runAfter = Some 60, results = None, completedOn = None\<rparr>"

text \<open>Counts with two hooks still processing.\<close>

definition busy_counts :: counts where
  "busy_counts = \<lparr>processing = 2, waiting = 3, completed = 7\<rparr>"

text \<open>
  The timer after the first run of \<open>updateHooks\<close> has called back; then after the
  server has announced its stop; then after the timeout that was pending has fired.
\<close>

definition after_first_cycle :: scheduler where
  "after_first_cycle =
     updateHooks_callback None (registered\<lparr>cycles_in_flight := cycles_in_flight registered - 1\<rparr>)"

definition stopped_waiting :: scheduler where
  "stopped_waiting = onPreStop after_first_cycle"

definition stopped_fired :: scheduler where
  "stopped_fired = timer (stopped_waiting\<lparr>timers_pending := timers_pending stopped_waiting - 1\<rparr>)"

section \<open>Properties of the fetch\<close>

lemma matches_due:
  "matches \<lparr>q_status_in = [Waiting, Failed], q_runAfter_lte = Some now\<rparr> j = due now j"
  by (auto simp: matches_def due_def split: option.splits)

lemma updateHooks_fetch_waiting:
  "updateHooks_fetch coll dbErr = Proceed js \<Longrightarrow> js = filter (\<lambda>j. status j = Waiting) coll"
proof -
  have m: "matches \<lparr>q_status_in = [Waiting], q_runAfter_lte = None\<rparr> = (\<lambda>j. status j = Waiting)"
    by (rule ext) (simp add: matches_def)
  assume "updateHooks_fetch coll dbErr = Proceed js"
  then show ?thesis
    unfolding updateHooks_fetch_def toArray_def collection_find_def m
    by (auto split: option.splits if_splits)
qed

lemma set_cursor_limit: "set (cursor_limit n docs) \<subseteq> set docs"
  by (auto simp: cursor_limit_def dest: in_set_takeD)

lemma length_cursor_limit: "n \<noteq> 0 \<Longrightarrow> length (cursor_limit n docs) \<le> n"
  by (simp add: cursor_limit_def)

lemma due_batch_props:
  fixes st :: settings and coll :: collection and now :: nat
  defines "docs \<equiv> cursor_limit (batchSize st)
             (collection_find coll \<lparr>q_status_in = [Waiting, Failed], q_runAfter_lte = Some now\<rparr>)"
  shows "(\<forall>j \<in> set docs. j \<in> set coll \<and> due now j) \<and>
         (batchSize st \<noteq> 0 \<longrightarrow> length docs \<le> batchSize st) \<and>
         (batchSize st = 0 \<longrightarrow> docs = filter (due now) coll)"
proof -
  have sub: "set docs \<subseteq> set (filter (due now) coll)"
    unfolding docs_def collection_find_def matches_due by (rule set_cursor_limit)
  have len: "batchSize st \<noteq> 0 \<longrightarrow> length docs \<le> batchSize st"
    unfolding docs_def by (simp add: length_cursor_limit)
  have all: "batchSize st = 0 \<longrightarrow> docs = filter (due now) coll"
    unfolding docs_def collection_find_def matches_due by (simp add: cursor_limit_def)
  from sub len all show ?thesis by auto
qed

text \<open>
  Claim C2, as amended. In every tick of the pollers that query by \<open>runAfter\<close>,
  the jobs fetched for execution, by the \<open>hooks\<close> task and by the first stage of
  \<open>queryHooks\<close> alike, are documents of the collection whose status is waiting or
  failed and whose \<open>runAfter\<close> is set and not after the time of the query; a job
  whose \<open>runAfter\<close> is in the future is never among them. A nonzero
  \<open>batchSize\<close> caps the number of fetched jobs; with \<open>batchSize = 0\<close> the query
  returns every due job. The poller \<open>updateHooks\<close> of \<open>index.js\<close> fetches every
  document whose status is waiting, whatever its \<open>runAfter\<close> and however many
  there are.
\<close>

theorem C2_fetch_by_poller:
  "(snd (hooks_task st coll now dbErr proceed) = Inr js \<longrightarrow>
      (\<forall>j \<in> set js. j \<in> set coll \<and> due now j) \<and>
      (\<forall>j t. runAfter j = Some t \<and> now < t \<longrightarrow> j \<notin> set js) \<and>
      (batchSize st \<noteq> 0 \<longrightarrow> length js \<le> batchSize st) \<and>
      (batchSize st = 0 \<and> proceed \<longrightarrow> js = filter (due now) coll)) \<and>
   (queryHooks_fetch st coll now dbErr = Proceed js \<longrightarrow>
      (\<forall>j \<in> set js. j \<in> set coll \<and> due now j) \<and>
      (\<forall>j t. runAfter j = Some t \<and> now < t \<longrightarrow> j \<notin> set js) \<and>
      (batchSize st \<noteq> 0 \<longrightarrow> length js \<le> batchSize st) \<and>
      (batchSize st = 0 \<longrightarrow> js = filter (due now) coll)) \<and>
   (updateHooks_fetch coll dbErr = Proceed js \<longrightarrow>
      js = filter (\<lambda>j. status j = Waiting) coll)"
proof -
  let ?docs = "cursor_limit (batchSize st)
     (collection_find coll \<lparr>q_status_in = [Waiting, Failed], q_runAfter_lte = Some now\<rparr>)"
  note P = due_batch_props [of st coll now]
  have future: "\<forall>j t. runAfter j = Some t \<and> now < t \<longrightarrow> j \<notin> set ?docs"
    using P by (auto simp: due_def)
  have A: "snd (hooks_task st coll now dbErr proceed) = Inr js \<Longrightarrow> proceed \<Longrightarrow> js = ?docs"
    by (auto simp: hooks_task_def toArray_def split: option.splits)
  have B: "snd (hooks_task st coll now dbErr proceed) = Inr js \<Longrightarrow> \<not> proceed \<Longrightarrow> js = []"
    by (auto simp: hooks_task_def)
  have C: "queryHooks_fetch st coll now dbErr = Proceed js \<Longrightarrow> js = ?docs"
    by (auto simp: queryHooks_fetch_def toArray_def split: option.splits if_splits)
  have first: "snd (hooks_task st coll now dbErr proceed) = Inr js \<longrightarrow>
      (\<forall>j \<in> set js. j \<in> set coll \<and> due now j) \<and>
      (\<forall>j t. runAfter j = Some t \<and> now < t \<longrightarrow> j \<notin> set js) \<and>
      (batchSize st \<noteq> 0 \<longrightarrow> length js \<le> batchSize st) \<and>
      (batchSize st = 0 \<and> proceed \<longrightarrow> js = filter (due now) coll)"
  proof (cases proceed)
    case True
    show ?thesis
    proof
      assume h: "snd (hooks_task st coll now dbErr proceed) = Inr js"
      have eq: "js = ?docs" using A [OF h True] .
      from P future show "(\<forall>j \<in> set js. j \<in> set coll \<and> due now j) \<and>
      (\<forall>j t. runAfter j = Some t \<and> now < t \<longrightarrow> j \<notin> set js) \<and>
      (batchSize st \<noteq> 0 \<longrightarrow> length js \<le> batchSize st) \<and>
      (batchSize st = 0 \<and> proceed \<longrightarrow> js = filter (due now) coll)"
        unfolding eq by blast
    qed
  next
    case False
    show ?thesis
    proof
      assume h: "snd (hooks_task st coll now dbErr proceed) = Inr js"
      have eq: "js = []" using B [OF h False] .
      from False show "(\<forall>j \<in> set js. j \<in> set coll \<and> due now j) \<and>
      (\<forall>j t. runAfter j = Some t \<and> now < t \<longrightarrow> j \<notin> set js) \<and>
      (batchSize st \<noteq> 0 \<longrightarrow> length js \<le> batchSize st) \<and>
      (batchSize st = 0 \<and> proceed \<longrightarrow> js = filter (due now) coll)"
        unfolding eq by simp
    qed
  qed
  have second: "queryHooks_fetch st coll now dbErr = Proceed js \<longrightarrow>
      (\<forall>j \<in> set js. j \<in> set coll \<and> due now j) \<and>
      (\<forall>j t. runAfter j = Some t \<and> now < t \<longrightarrow> j \<notin> set js) \<and>
      (batchSize st \<noteq> 0 \<longrightarrow> length js \<le> batchSize st) \<and>
      (batchSize st = 0 \<longrightarrow> js = filter (due now) coll)"
  proof
    assume h: "queryHooks_fetch st coll now dbErr = Proceed js"
    have eq: "js = ?docs" using C [OF h] .
    from P future show "(\<forall>j \<in> set js. j \<in> set coll \<and> due now j) \<and>
      (\<forall>j t. runAfter j = Some t \<and> now < t \<longrightarrow> j \<notin> set js) \<and>
      (batchSize st \<noteq> 0 \<longrightarrow> length js \<le> batchSize st) \<and>
      (batchSize st = 0 \<longrightarrow> js = filter (due now) coll)"
      unfolding eq by blast
  qed
  have third: "updateHooks_fetch coll dbErr = Proceed js \<longrightarrow>
      js = filter (\<lambda>j. status j = Waiting) coll"
    by (rule impI) (rule updateHooks_fetch_waiting)
  show ?thesis by (rule conjI [OF first conjI [OF second third]])
qed

theorem C2_fetch_witness:
  "snd (hooks_task welcome_settings [job_due, job_later, job_retry] 100 None True) = Inr [job_due] \<and>
   queryHooks_fetch welcome_settings [job_due, job_later, job_retry] 100 None = Proceed [job_due] \<and>
   due 100 job_due \<and> job_later \<notin> set [job_due] \<and>
   length [job_due] \<le> batchSize welcome_settings \<and>
   updateHooks_fetch [job_due, job_later, job_retry] None = Proceed [job_due] \<and>
   [job_due] = filter (\<lambda>j. status j = Waiting) [job_due, job_later, job_retry]"
proof -
  have h: "snd (hooks_task welcome_settings [job_due, job_later, job_retry] 100 None True)
             = Inr [job_due]"
    by (simp add: hooks_task_def toArray_def cursor_limit_def collection_find_def matches_def
        welcome_settings_def job_due_def job_later_def job_retry_def)
  have g: "queryHooks_fetch welcome_settings [job_due, job_later, job_retry] 100 None
             = Proceed [job_due]"
    by (simp add: queryHooks_fetch_def toArray_def cursor_limit_def collection_find_def
        matches_def welcome_settings_def job_due_def job_later_def job_retry_def)
  have u: "updateHooks_fetch [job_due, job_later, job_retry] None = Proceed [job_due]"
    by (simp add: updateHooks_fetch_def toArray_def collection_find_def
        matches_def job_due_def job_later_def job_retry_def)
  have b: "batchSize welcome_settings \<noteq> 0"
    by (simp add: welcome_settings_def)
  have r: "runAfter job_later = Some 500 \<and> (100::nat) < 500"
    by (simp add: job_later_def)
  note T = C2_fetch_by_poller
         [of welcome_settings "[job_due, job_later, job_retry]" 100 None True "[job_due]"]
  from T h b r
  have first: "due 100 job_due \<and> job_later \<notin> set [job_due] \<and>
        length [job_due] \<le> batchSize welcome_settings"
    by simp
  from T u
  have third: "[job_due] = filter (\<lambda>j. status j = Waiting) [job_due, job_later, job_retry]"
    by blast
  from h g first u third show ?thesis by blast
qed

text \<open>
  Claim C2 as stated fails for the poller of \<open>index.js\<close>: in a tick at time 100,
  with a \<open>batchSize\<close> of 1, \<open>updateHooks\<close> fetches three hooks, one of them with
  a \<open>runAfter\<close> of 500.
\<close>

theorem C2_updateHooks_counterexample:
  "updateHooks_fetch [job_due, job_future, job_ann] None = Proceed [job_due, job_future, job_ann] \<and>
   runAfter job_future = Some 500 \<and> (100::nat) < 500 \<and> \<not> due 100 job_future \<and>
   batchSize welcome_settings = 1 \<and> length [job_due, job_future, job_ann] = 3"
  by (simp add: updateHooks_fetch_def toArray_def collection_find_def matches_def due_def
      welcome_settings_def job_due_def job_future_def job_ann_def)

section \<open>Properties of the execution of one hook\<close>

lemma each_outcome_Finished:
  "each_outcome ss = Finished tes \<Longrightarrow> ss = map (\<lambda>(t, e). At t e) tes"
proof (induction ss arbitrary: tes rule: each_outcome.induct)
  case 1
  then show ?case by simp
next
  case (2 n m ss)
  then show ?case by simp
next
  case (3 ss)
  then show ?case by (simp split: outcome.splits)
next
  case (4 t e ss)
  then show ?case by (auto split: outcome.splits)
qed

lemma each_outcome_crash:
  "Uncaught n m \<in> set ss \<Longrightarrow> \<exists>n' m'. each_outcome ss = Crashes n' m'"
  by (induction ss rule: each_outcome.induct) (auto split: outcome.splits)

lemma each_outcome_no_crash:
  "(\<forall>n m. each_outcome ss \<noteq> Crashes n m) \<Longrightarrow> Uncaught n m \<notin> set ss"
  using each_outcome_crash by blast

lemma launch_length: "length (snd (launch st srv hook_data acts)) \<le> length acts"
  by (induction acts) (auto split: prod.splits settled.splits)

lemma launch_all:
  "(\<And>n m. Uncaught n m \<notin> set (snd (launch st srv hook_data acts))) \<Longrightarrow>
   launch st srv hook_data acts = (map (\<lambda>a. fst (iteratee st srv hook_data a)) acts,
                            map (\<lambda>a. snd (iteratee st srv hook_data a)) acts)"
proof (induction acts)
  case Nil
  then show ?case by simp
next
  case (Cons a acts)
  obtain a' s where it: "iteratee st srv hook_data a = (a', s)" by (cases "iteratee st srv hook_data a")
  show ?case
  proof (cases s)
    case (Uncaught n m)
    with it Cons.prems [of n m] show ?thesis by simp
  next
    case (At t e)
    obtain as' ss where l: "launch st srv hook_data acts = (as', ss)" by (cases "launch st srv hook_data acts")
    have "\<And>n m. Uncaught n m \<notin> set (snd (launch st srv hook_data acts))"
      using Cons.prems it At l by auto
    from Cons.IH [OF this] it At l show ?thesis by simp
  next
    case Pending
    obtain as' ss where l: "launch st srv hook_data acts = (as', ss)" by (cases "launch st srv hook_data acts")
    have "\<And>n m. Uncaught n m \<notin> set (snd (launch st srv hook_data acts))"
      using Cons.prems it Pending l by auto
    from Cons.IH [OF this] it Pending l show ?thesis by simp
  qed
qed

lemma foldl_push_results: "uh_results (foldl push u es) = uh_results u @ es"
proof (induction es arbitrary: u)
  case Nil
  then show ?case by simp
next
  case (Cons e es)
  then show ?case by (cases e) simp_all
qed

lemma foldl_push_status:
  "uh_status (foldl push u es) = (if \<exists>e \<in> set es. is_error e then Some Failed else uh_status u)"
proof (induction es arbitrary: u)
  case Nil
  then show ?case by simp
next
  case (Cons e es)
  then show ?case by (cases e) simp_all
qed



lemma findOne_update_one:
  "(\<And>d. job_id (f d) = job_id d) \<Longrightarrow>
   findOne (update_one i f coll) j = (if j = i then map_option f (findOne coll i) else findOne coll j)"
  by (induction coll) auto

lemma performActions_Finished:
  assumes cfg: "hooks st (hookName hk) = Some actions"
    and fin: "snd (performActions st srv hk) = Finished u"
  shows "\<exists>tes. map (\<lambda>a. snd (iteratee st srv (hookData hk) a)) actions
                 = map (\<lambda>(t, e). At t e) tes \<and>
               u = foldl push \<lparr>uh_results = [], uh_status = None\<rparr>
                     (map snd (completion_order tes))"
proof -
  obtain actions' ss where l: "launch st srv (hookData hk) actions = (actions', ss)"
    by (cases "launch st srv (hookData hk) actions")
  from cfg fin l obtain tes where o: "each_outcome ss = Finished tes"
    and u: "u = foldl push \<lparr>uh_results = [], uh_status = None\<rparr> (map snd (completion_order tes))"
    by (auto simp: performActions_def split: outcome.splits if_splits)
  from o have "\<forall>n m. each_outcome ss \<noteq> Crashes n m" by simp
  then have "\<And>n m. Uncaught n m \<notin> set (snd (launch st srv (hookData hk) actions))"
    using l each_outcome_no_crash by simp
  from launch_all [OF this] l
  have "ss = map (\<lambda>a. snd (iteratee st srv (hookData hk) a)) actions" by simp
  with each_outcome_Finished [OF o] u show ?thesis by auto
qed




lemma performActions_status:
  assumes fin: "snd (performActions st srv hk) = Finished u"
  shows "uh_status u = (if \<exists>e \<in> set (uh_results u). is_error e then Some Failed else None)"
proof (cases "hooks st (hookName hk)")
  case None
  with fin show ?thesis by (auto simp: performActions_def split: if_splits)
next
  case (Some actions)
  from performActions_Finished [OF Some fin] obtain tes where
    u: "u = foldl push \<lparr>uh_results = [], uh_status = None\<rparr> (map snd (completion_order tes))"
    by blast
  show ?thesis
    unfolding u foldl_push_status foldl_push_results by simp
qed

lemma findOne_collection_update:
  assumes "\<And>d. job_id (f d) = job_id d" and "findOne coll i = Some d0"
  shows "findOne (collection_update coll i f err) i = Some (case err of Some e \<Rightarrow> d0 | None \<Rightarrow> f d0)"
  using assms by (cases err) (simp_all add: collection_update_def findOne_update_one)

lemma executeHook_Finished:
  assumes "run_outcome (executeHook st srv env coll hk) = Finished (Inr u)"
  shows "snd (performActions st srv hk) = Finished u \<and> completeHook_err env = None \<and>
         run_collection (executeHook st srv env coll hk) =
           completeHook (fst (logHook st coll hk (logHook_err env))) hk u (completed_at env) None"
  using assms
  by (auto simp: executeHook_def split: prod.splits outcome.splits option.splits)

text \<open>
  Claim C4. When the chain of an executed hook finishes, the document of the hook
  holds the \<open>results\<close> of \<open>performActions\<close> and a terminal status: failed when
  at least one entry of the results is an error (a handler's error, a caught
  exception or the \<open>ETIMEDOUT\<close> of the timeout wrapper), complete when every
  entry is an output.
\<close>

theorem C4_terminal_status:
  assumes stored: "findOne coll (job_id hk) = Some d0"
    and fin: "run_outcome (executeHook st srv env coll hk) = Finished (Inr u)"
  shows "\<exists>d. findOne (run_collection (executeHook st srv env coll hk)) (job_id hk) = Some d \<and>
              results d = Some (uh_results u) \<and>
              status d = (if \<exists>e \<in> set (uh_results u). is_error e then Failed else Complete)"
proof -
  let ?coll1 = "fst (logHook st coll hk (logHook_err env))"
  from executeHook_Finished [OF fin] have pa: "snd (performActions st srv hk) = Finished u"
    and rc: "run_collection (executeHook st srv env coll hk) =
               completeHook ?coll1 hk u (completed_at env) None"
    by simp_all
  have "findOne ?coll1 (job_id hk) =
          Some (case logHook_err env of Some e \<Rightarrow> d0 | None \<Rightarrow> d0\<lparr>status := Processing\<rparr>)"
    unfolding logHook_def fst_conv
    by (rule findOne_collection_update) (simp_all add: stored)
  then obtain d1 where d1: "findOne ?coll1 (job_id hk) = Some d1" by blast
  let ?f = "\<lambda>d. d\<lparr>results := Some (uh_results u),
               status := (if uh_status u = Some Failed then Failed else Complete),
               completedOn := Some (completed_at env)\<rparr>"
  have "findOne (completeHook ?coll1 hk u (completed_at env) None) (job_id hk) = Some (?f d1)"
    unfolding completeHook_def
    using findOne_collection_update [of ?f ?coll1 "job_id hk" d1 None] d1 by simp
  with rc have "findOne (run_collection (executeHook st srv env coll hk)) (job_id hk) = Some (?f d1)"
    by simp
  moreover have "results (?f d1) = Some (uh_results u)" by simp
  moreover have "status (?f d1) = (if \<exists>e \<in> set (uh_results u). is_error e then Failed else Complete)"
    using performActions_status [OF pa] by simp
  ultimately show ?thesis by blast
qed

theorem C4_terminal_status_witness:
  "findOne [job_due] (job_id job_due) = Some job_due \<and>
   run_outcome (executeHook welcome_settings slow_server quiet_store [job_due] job_due) =
     Finished (Inr \<lparr>uh_results = [Output ''logAudit'' ''logged'', Error ''sendEmail'' etimedout],
                    uh_status = Some Failed\<rparr>) \<and>
   (\<exists>d. findOne (run_collection (executeHook welcome_settings slow_server quiet_store [job_due] job_due))
           (job_id job_due) = Some d \<and>
        results d = Some [Output ''logAudit'' ''logged'', Error ''sendEmail'' etimedout] \<and>
        status d = Failed)"
proof -
  have stored: "findOne [job_due] (job_id job_due) = Some job_due"
    by simp
  have fin: "run_outcome (executeHook welcome_settings slow_server quiet_store [job_due] job_due) =
     Finished (Inr \<lparr>uh_results = [Output ''logAudit'' ''logged'', Error ''sendEmail'' etimedout],
                    uh_status = Some Failed\<rparr>)"
    by (simp add: executeHook_def logHook_def completeHook_def collection_update_def
        quiet_store_def logComplete_def
        performActions_def welcome_settings_def slow_server_def job_due_def
        invoke_def actionCall_def async_timeout_def is_call_expression_def callback_entry_def
        completion_order_def)
  from C4_terminal_status [OF stored fin]
  have "\<exists>d. findOne (run_collection (executeHook welcome_settings slow_server quiet_store [job_due] job_due))
           (job_id job_due) = Some d \<and>
        results d = Some [Output ''logAudit'' ''logged'', Error ''sendEmail'' etimedout] \<and>
        status d = Failed"
    by simp
  with stored fin show ?thesis by blast
qed

lemma executeHook_logHook_err:
  "run_outcome (executeHook st srv (env\<lparr>logHook_err := x\<rparr>) coll hk)
     = run_outcome (executeHook st srv env coll hk) \<and>
   run_settings (executeHook st srv (env\<lparr>logHook_err := x\<rparr>) coll hk)
     = run_settings (executeHook st srv env coll hk)"
  by (auto simp: executeHook_def split: prod.splits outcome.splits option.splits)

lemma executeHook_logs_error:
  "ServerLog [''hapi-hooks'', ''error''] e
     \<in> set (run_effects (executeHook st srv (env\<lparr>logHook_err := Some e\<rparr>) coll hk))"
  by (auto simp: executeHook_def logHook_def split: prod.splits outcome.splits option.splits)

text \<open>
  Claim C6, as amended. When the update that marks a hook as processing fails, the
  runner logs the error and goes on with the cycle: \<open>performActions\<close> runs and the
  chain ends exactly as it does after a successful update, and when the chain
  finishes the completion update stores \<open>results\<close>, the terminal status and
  \<open>completedOn\<close> in the document, which had stayed as it was until then.
\<close>

theorem C6_failed_mark_is_logged_and_cycle_continues:
  "ServerLog [''hapi-hooks'', ''error''] e
     \<in> set (run_effects (executeHook st srv (env\<lparr>logHook_err := Some e\<rparr>) coll hk)) \<and>
   run_outcome (executeHook st srv (env\<lparr>logHook_err := Some e\<rparr>) coll hk)
     = run_outcome (executeHook st srv (env\<lparr>logHook_err := None\<rparr>) coll hk) \<and>
   (\<forall>d0 u. findOne coll (job_id hk) = Some d0 \<and>
       run_outcome (executeHook st srv (env\<lparr>logHook_err := Some e\<rparr>) coll hk) = Finished (Inr u) \<longrightarrow>
       findOne (run_collection (executeHook st srv (env\<lparr>logHook_err := Some e\<rparr>) coll hk)) (job_id hk)
         = Some (d0\<lparr>results := Some (uh_results u),
                    status := (if \<exists>x \<in> set (uh_results u). is_error x then Failed else Complete),
                    completedOn := Some (completed_at env)\<rparr>))"
proof (intro conjI allI impI)
  show "ServerLog [''hapi-hooks'', ''error''] e
     \<in> set (run_effects (executeHook st srv (env\<lparr>logHook_err := Some e\<rparr>) coll hk))"
    by (rule executeHook_logs_error)
next
  show "run_outcome (executeHook st srv (env\<lparr>logHook_err := Some e\<rparr>) coll hk)
     = run_outcome (executeHook st srv (env\<lparr>logHook_err := None\<rparr>) coll hk)"
    using executeHook_logHook_err [where env = env and x = "Some e"]
      executeHook_logHook_err [where env = env and x = None] by simp
next
  fix d0 u
  let ?env = "env\<lparr>logHook_err := Some e\<rparr>"
  assume a: "findOne coll (job_id hk) = Some d0 \<and>
       run_outcome (executeHook st srv ?env coll hk) = Finished (Inr u)"
  then have stored: "findOne coll (job_id hk) = Some d0"
    and fin: "run_outcome (executeHook st srv ?env coll hk) = Finished (Inr u)" by simp_all
  from executeHook_Finished [OF fin] have pa: "snd (performActions st srv hk) = Finished u"
    and rc: "run_collection (executeHook st srv ?env coll hk) =
               completeHook (fst (logHook st coll hk (Some e))) hk u (completed_at env) None"
    by simp_all
  have c1: "fst (logHook st coll hk (Some e)) = coll"
    by (simp add: logHook_def collection_update_def)
  let ?f = "\<lambda>d. d\<lparr>results := Some (uh_results u),
               status := (if uh_status u = Some Failed then Failed else Complete),
               completedOn := Some (completed_at env)\<rparr>"
  have "findOne (completeHook coll hk u (completed_at env) None) (job_id hk) = Some (?f d0)"
    unfolding completeHook_def
    using findOne_collection_update [of ?f coll "job_id hk" d0 None] stored by simp
  with rc c1 performActions_status [OF pa]
  show "findOne (run_collection (executeHook st srv ?env coll hk)) (job_id hk)
         = Some (d0\<lparr>results := Some (uh_results u),
                    status := (if \<exists>x \<in> set (uh_results u). is_error x then Failed else Complete),
                    completedOn := Some (completed_at env)\<rparr>)"
    by simp
qed

theorem C6_cycle_continues_witness:
  "findOne [job_due] (job_id job_due) = Some job_due \<and>
   run_outcome (executeHook welcome_settings mail_server failing_mark [job_due] job_due) =
     Finished (Inr \<lparr>uh_results = [Output ''logAudit'' ''logged'', Output ''sendEmail'' ''sent''],
                    uh_status = None\<rparr>) \<and>
   findOne (run_collection (executeHook welcome_settings mail_server failing_mark [job_due] job_due))
       (job_id job_due)
     = Some (job_due\<lparr>results := Some [Output ''logAudit'' ''logged'', Output ''sendEmail'' ''sent''],
                      status := Complete, completedOn := Some 200\<rparr>)"
proof -
  have eq: "quiet_store\<lparr>logHook_err := Some ''store unreachable''\<rparr> = failing_mark"
    by (simp add: quiet_store_def failing_mark_def)
  have stored: "findOne [job_due] (job_id job_due) = Some job_due"
    by simp
  have fin: "run_outcome (executeHook welcome_settings mail_server failing_mark [job_due] job_due) =
     Finished (Inr \<lparr>uh_results = [Output ''logAudit'' ''logged'', Output ''sendEmail'' ''sent''],
                    uh_status = None\<rparr>)"
    by (simp add: executeHook_def logHook_def completeHook_def collection_update_def
        failing_mark_def logComplete_def
        performActions_def welcome_settings_def mail_server_def job_due_def
        invoke_def actionCall_def async_timeout_def is_call_expression_def callback_entry_def
        completion_order_def)
  note T = C6_failed_mark_is_logged_and_cycle_continues
             [where st = welcome_settings and srv = mail_server and env = quiet_store
                and e = "''store unreachable''" and coll = "[job_due]" and hk = job_due,
              unfolded eq]
  from T stored fin
  have "findOne (run_collection (executeHook welcome_settings mail_server failing_mark [job_due] job_due))
          (job_id job_due)
        = Some (job_due\<lparr>results := Some (uh_results
                   \<lparr>uh_results = [Output ''logAudit'' ''logged'', Output ''sendEmail'' ''sent''],
                    uh_status = None\<rparr>),
                 status := (if \<exists>x \<in> set (uh_results
                   \<lparr>uh_results = [Output ''logAudit'' ''logged'', Output ''sendEmail'' ''sent''],
                    uh_status = None\<rparr>). is_error x then Failed else Complete),
                 completedOn := Some (completed_at quiet_store)\<rparr>)"
    by blast
  then have "findOne (run_collection (executeHook welcome_settings mail_server failing_mark [job_due] job_due))
       (job_id job_due)
     = Some (job_due\<lparr>results := Some [Output ''logAudit'' ''logged'', Output ''sendEmail'' ''sent''],
                      status := Complete, completedOn := Some 200\<rparr>)"
    by (simp add: quiet_store_def)
  with stored fin show ?thesis by blast
qed

text \<open>
  Claim C6 as stated fails: the store rejects the update to processing, and still
  both actions are executed and the document ends complete, with results.
\<close>

theorem C6_abort_counterexample:
  "run_effects (executeHook welcome_settings mail_server failing_mark [job_due] job_due)
     = [ServerLog [''hapi-hooks'', ''error''] ''store unreachable''] \<and>
   run_collection (executeHook welcome_settings mail_server failing_mark [job_due] job_due)
     = [job_due\<lparr>results := Some [Output ''logAudit'' ''logged'', Output ''sendEmail'' ''sent''],
                status := Complete, completedOn := Some 200\<rparr>]"
  by (simp add: executeHook_def logHook_def completeHook_def collection_update_def
      failing_mark_def logComplete_def
      performActions_def welcome_settings_def mail_server_def job_due_def
      invoke_def actionCall_def async_timeout_def is_call_expression_def callback_entry_def
      completion_order_def)





section \<open>Timeouts\<close>

text \<open>
  With a timeout set, an action that is a plain method path settles at the deadline
  at the latest, and a handler that has not answered by then is recorded with the
  \<open>ETIMEDOUT\<close> error. A call expression is run the same way whatever the timeout.
\<close>

lemma plain_action_settles_by_deadline:
  assumes "timeout st \<noteq> 0" and "\<not> is_call_expression action"
  shows "\<exists>t e. invoke st srv hook_data action actionData = At t e \<and> t \<le> timeout st"
  using assms
  by (auto simp: invoke_def actionCall_def async_timeout_def
      split: option.splits behaviour.splits)

lemma plain_action_timeout_recorded:
  assumes "timeout st \<noteq> 0" and "\<not> is_call_expression action"
    and "methods srv action = Some fn"
    and "fn actionData = Never \<or> (\<exists>t error output. fn actionData = Calls t error output \<and> timeout st \<le> t)"
  shows "invoke st srv hook_data action actionData = At (timeout st) (Error action etimedout)"
  using assms
  by (auto simp: invoke_def actionCall_def async_timeout_def callback_entry_def
      split: option.splits behaviour.splits)

lemma call_expression_ignores_timeout:
  assumes "is_call_expression action"
  shows "invoke st srv hook_data action actionData
           = invoke (st\<lparr>timeout := 0\<rparr>) srv hook_data action actionData"
  using assms by (simp add: invoke_def)

text \<open>
  Claim C5, at an input where the code departs from it. The timeout is 30 ms and the
  first action is the call expression \<open>notify(user)\<close>. When the method answers
  after 50 ms, its output is recorded and the hook is stored as complete; when it
  never answers, \<open>performActions\<close> never finishes and the hook stays processing.
  In neither case is a timeout error recorded for the action.
\<close>

theorem C5_call_expression_outlives_timeout:
  "timeout report_settings = 30 \<and>
   is_call_expression ''notify(user)'' \<and>
   str2fn_execute mail_server ''notify(user)'' (hookData job_report) = Calls 50 None ''late'' \<and>
   run_outcome (executeHook report_settings mail_server quiet_store [job_report] job_report) =
     Finished (Inr \<lparr>uh_results = [Output ''logAudit'' ''logged'', Output ''notify(user)'' ''late''],
                    uh_status = None\<rparr>) \<and>
   map status (run_collection (executeHook report_settings mail_server quiet_store [job_report] job_report))
     = [Complete] \<and>
   str2fn_execute slow_server ''notify(user)'' (hookData job_report) = Never \<and>
   run_outcome (executeHook report_settings slow_server quiet_store [job_report] job_report) = Hangs \<and>
   map status (run_collection (executeHook report_settings slow_server quiet_store [job_report] job_report))
     = [Processing]"
  by (simp add: executeHook_def logHook_def completeHook_def collection_update_def
      quiet_store_def logComplete_def
      performActions_def report_settings_def mail_server_def slow_server_def job_report_def
      invoke_def actionCall_def async_timeout_def is_call_expression_def callback_entry_def
      completion_order_def)

section \<open>Properties of enqueueing\<close>

lemma job_id_le_max: "d \<in> set coll \<Longrightarrow> job_id d \<le> foldr max (map job_id coll) 0"
  by (induction coll) auto

lemma findOne_None_iff: "findOne coll i = None \<longleftrightarrow> i \<notin> job_id ` set coll"
  by (induction coll) auto

lemma findOne_fresh_id: "findOne coll (fresh_id coll) = None"
proof -
  have "fresh_id coll \<notin> job_id ` set coll"
  proof
    assume "fresh_id coll \<in> job_id ` set coll"
    then obtain d where "d \<in> set coll" and "job_id d = fresh_id coll" by auto
    with job_id_le_max [of d coll] show False by (simp add: fresh_id_def)
  qed
  then show ?thesis by (simp add: findOne_None_iff)
qed

text \<open>
  For a name that is neither an own key of the table nor inherited, the call does
  nothing and returns without an error. For an own key it inserts one document
  with status waiting, the given name and data and an \<open>_id\<close> that no stored
  document has; when the store rejects the insert, the collection is as before and
  the error is logged.
\<close>

lemma hook_absent_name:
  assumes "\<not> hooks_undefined st" and "hooks st hook_name = None"
    and "hook_name \<notin> set object_prototype_names"
  shows "hook st coll now insertErr hook_name hook_data = Inr (coll, [])"
  using assms by (simp add: hook_def get_property_def)

lemma hook_own_name:
  assumes "\<not> hooks_undefined st" and "hooks st hook_name = Some actions"
  shows "\<exists>d lg. hook st coll now None hook_name hook_data = Inr (coll @ [d], lg) \<and>
           status d = Waiting \<and> hookName d = hook_name \<and> hookData d = hook_data \<and>
           added d = now \<and> findOne coll (job_id d) = None"
  using assms by (simp add: hook_def get_property_def insertOne_def findOne_fresh_id)

lemma hook_insert_rejected:
  assumes "\<not> hooks_undefined st" and "hooks st hook_name = Some actions"
  shows "\<exists>lg. hook st coll now (Some e) hook_name hook_data = Inr (coll, lg) \<and>
           ServerLog [''hapi-hooks'', ''error''] e \<in> set lg"
  using assms by (simp add: hook_def get_property_def insertOne_def)

text \<open>
  Claim C8, at inputs where the code departs from it. The table has the one key
  \<open>welcome\<close>. The name \<open>constructor\<close> is not a key of it, and the call inserts a
  waiting document under that name all the same: the guard finds the function that
  every plain object inherits. And when the options gave no \<open>hooks\<close> at all, the
  call ends with a \<open>TypeError\<close> for its caller.
\<close>

theorem C8_inherited_name_is_enqueued:
  "hooks welcome_settings ''constructor'' = None \<and>
   hook welcome_settings [job_due] 70 None ''constructor'' Map.empty =
     Inr ([job_due,
           \<lparr>job_id = 2, hookName = ''constructor'', hookData = Map.empty, status = Waiting,
            added = 70, runAfter = None, results = None, completedOn = None\<rparr>],
          []) \<and>
   hook (welcome_settings\<lparr>hooks_undefined := True\<rparr>) [job_due] 70 None ''goodbye'' Map.empty =
     Inl ''TypeError''"
  by (simp add: hook_def get_property_def object_prototype_names_def insertOne_def fresh_id_def
      welcome_settings_def job_due_def)

section \<open>Properties of polling\<close>

lemma timer_outstanding_busy:
  assumes "processing current \<noteq> 0"
  shows "timer_outstanding st True countErr current query go' =
           (case countErr of Some e \<Rightarrow> [ServerLog [''hapi-hooks'', ''error''] e] | None \<Rightarrow> []) @
           (if log st then [ServerLog [''hapi-hooks'', ''Status''] ''processing, waiting, completed''] else []) @
           [SetTimeout (interval st)]"
  using assms by (simp add: timer_outstanding_def)

lemma poll_hooks_busy:
  assumes "processing outstandingHooks \<noteq> 0"
  shows "poll_hooks st coll now dbErr execErr outstandingHooks =
           ([Emit ''hook:query''] @
            (if log st then [ServerLog [''hapi-hooks'', ''status''] ''outstanding hooks'',
                             ServerLog [''hapi-hooks'', ''warning''] ''There are still hooks in the queue.'']
             else []), None)"
  using assms by (simp add: poll_hooks_def logHooks_task_def hooks_task_def execute_task_def)

text \<open>
  Claim C3. When the count of processing hooks observed at the start of a tick is
  not zero, the tick fetches nothing and starts nothing: the timer issues no query
  and no execution, and apart from its log records its only effect is one
  \<open>setTimeout\<close> for the next tick; in the polling module the \<open>hooks\<close> task gets
  \<open>false\<close> from \<open>logHooks\<close> and returns the empty list without a query, so
  nothing is executed.
\<close>

theorem C3_backpressure:
  assumes busy: "processing current \<noteq> 0"
  shows "\<not> (\<exists>x \<in> set (timer_outstanding st go countErr current query go'). fetches_or_starts x) \<and>
         filter (\<lambda>x. \<not> is_log x) (timer_outstanding st True countErr current query go')
           = [SetTimeout (interval st)] \<and>
         \<not> (\<exists>x \<in> set (fst (poll_hooks st coll now dbErr execErr current)). fetches_or_starts x) \<and>
         snd (hooks_task st coll now dbErr (snd (logHooks_task st current))) = Inr []"
proof -
  have a: "\<not> (\<exists>x \<in> set (timer_outstanding st go countErr current query go'). fetches_or_starts x)"
  proof (cases go)
    case True
    with busy show ?thesis
      by (auto simp: timer_outstanding_def split: option.splits)
  next
    case False
    then show ?thesis by (simp add: timer_outstanding_def)
  qed
  have b: "filter (\<lambda>x. \<not> is_log x) (timer_outstanding st True countErr current query go')
           = [SetTimeout (interval st)]"
    unfolding timer_outstanding_busy [OF busy] by (simp split: option.splits)
  have c: "\<not> (\<exists>x \<in> set (fst (poll_hooks st coll now dbErr execErr current)). fetches_or_starts x)"
    unfolding poll_hooks_busy [OF busy] by auto
  have d: "snd (hooks_task st coll now dbErr (snd (logHooks_task st current))) = Inr []"
    using busy by (simp add: logHooks_task_def hooks_task_def)
  from a b c d show ?thesis by blast
qed

theorem C3_backpressure_witness:
  "processing busy_counts \<noteq> 0 \<and>
   timer_outstanding welcome_settings True None busy_counts
      (queryHooks welcome_settings [job_due, job_later, job_retry] 100 None None) True
     = [SetTimeout 1000] \<and>
   filter (\<lambda>x. \<not> is_log x)
     (timer_outstanding welcome_settings True None busy_counts
        (queryHooks welcome_settings [job_due, job_later, job_retry] 100 None None) True)
     = [SetTimeout (interval welcome_settings)] \<and>
   snd (hooks_task welcome_settings [job_due, job_later, job_retry] 100 None
          (snd (logHooks_task welcome_settings busy_counts))) = Inr []"
proof -
  have busy: "processing busy_counts \<noteq> 0"
    by (simp add: busy_counts_def)
  have ev: "timer_outstanding welcome_settings True None busy_counts
      (queryHooks welcome_settings [job_due, job_later, job_retry] 100 None None) True
     = [SetTimeout 1000]"
    by (simp add: timer_outstanding_def busy_counts_def welcome_settings_def)
  from C3_backpressure [OF busy, of welcome_settings True None
      "queryHooks welcome_settings [job_due, job_later, job_retry] 100 None None" True
      "[job_due, job_later, job_retry]" 100 None None]
  have "filter (\<lambda>x. \<not> is_log x)
     (timer_outstanding welcome_settings True None busy_counts
        (queryHooks welcome_settings [job_due, job_later, job_retry] 100 None None) True)
     = [SetTimeout (interval welcome_settings)] \<and>
   snd (hooks_task welcome_settings [job_due, job_later, job_retry] 100 None
          (snd (logHooks_task welcome_settings busy_counts))) = Inr []"
    by blast
  with busy ev show ?thesis by blast
qed

text \<open>With no hook processing, the same tick does query and start the due hook.\<close>

lemma timer_outstanding_idle_example:
  "timer_outstanding welcome_settings True None \<lparr>processing = 0, waiting = 3, completed = 7\<rparr>
      (queryHooks welcome_settings [job_due, job_later, job_retry] 100 None None) True
     = [Find \<lparr>q_status_in = [Waiting, Failed], q_runAfter_lte = Some 100\<rparr> 1, Execute 1, SetTimeout 1000]"
    by (simp add: timer_outstanding_def welcome_settings_def queryHooks_def queryHooks_fetch_def
        toArray_def cursor_limit_def collection_find_def matches_def job_due_def job_later_def job_retry_def)

section \<open>Properties of the timer\<close>

lemma sched_inv_registered: "sched_inv registered"
  by (simp add: sched_inv_def registered_def timer_def)

lemma sched_inv_step: "step s s' \<Longrightarrow> sched_inv s \<Longrightarrow> sched_inv s'"
  by (induction rule: step.induct)
     (auto simp: sched_inv_def timer_def updateHooks_callback_def onPreStop_def Let_def
           split: option.splits)

lemma sched_inv_reachable: "step\<^sup>*\<^sup>* registered s \<Longrightarrow> sched_inv s"
  by (induction rule: rtranclp_induct) (auto intro: sched_inv_registered sched_inv_step)

lemma stopped_step:
  "step s s' \<Longrightarrow> \<not> continueProcessing s \<Longrightarrow>
   \<not> continueProcessing s' \<and> ticks_scheduled s' = ticks_scheduled s \<and>
   cycles_started s' = cycles_started s"
  by (induction rule: step.induct)
     (auto simp: timer_def updateHooks_callback_def onPreStop_def Let_def split: option.splits)

lemma stopped_steps:
  "step\<^sup>*\<^sup>* s s' \<Longrightarrow> \<not> continueProcessing s \<Longrightarrow>
   \<not> continueProcessing s' \<and> ticks_scheduled s' = ticks_scheduled s \<and>
   cycles_started s' = cycles_started s"
proof (induction rule: rtranclp_induct)
  case base
  then show ?case by simp
next
  case (step y z)
  from step.IH [OF step.prems] stopped_step [OF step.hyps(2)] show ?case by simp
qed

lemma scheduling_step:
  "step s s' \<Longrightarrow> ticks_scheduled s' \<noteq> ticks_scheduled s \<Longrightarrow>
   continueProcessing s \<and> cycles_in_flight s' < cycles_in_flight s \<and>
   ticks_scheduled s' = Suc (ticks_scheduled s)"
  by (induction rule: step.induct)
     (auto simp: timer_def updateHooks_callback_def onPreStop_def Let_def
           split: option.splits if_splits)

lemma starting_step:
  "step s s' \<Longrightarrow> cycles_started s' \<noteq> cycles_started s \<Longrightarrow>
   continueProcessing s \<and> timers_pending s' < timers_pending s"
  by (induction rule: step.induct)
     (auto simp: timer_def updateHooks_callback_def onPreStop_def Let_def
           split: option.splits if_splits)

text \<open>
  Claim C10. In every state the timer of one registered plugin can reach, at most
  one run of \<open>updateHooks\<close> is in flight, and none while a timeout is pending. A
  step that sets a timeout is the callback of the run in flight, taken while the
  flag is up, and it leaves no run in flight. Once the flag is down it stays down,
  and no further timeout is set and no further run is started, whatever happens
  next.
\<close>

theorem C10_cycles_never_overlap:
  assumes reach: "step\<^sup>*\<^sup>* registered s"
  shows "cycles_in_flight s \<le> 1 \<and>
         cycles_in_flight s + timers_pending s \<le> 1 \<and>
         (\<forall>s'. step s s' \<and> ticks_scheduled s' \<noteq> ticks_scheduled s \<longrightarrow>
               continueProcessing s \<and> cycles_in_flight s = 1 \<and> cycles_in_flight s' = 0) \<and>
         (\<forall>s'. \<not> continueProcessing s \<and> step\<^sup>*\<^sup>* s s' \<longrightarrow>
               \<not> continueProcessing s' \<and> ticks_scheduled s' = ticks_scheduled s \<and>
               cycles_started s' = cycles_started s)"
proof -
  from sched_inv_reachable [OF reach]
  have inv: "cycles_in_flight s + timers_pending s \<le> 1" by (simp add: sched_inv_def)
  have sch: "\<forall>s'. step s s' \<and> ticks_scheduled s' \<noteq> ticks_scheduled s \<longrightarrow>
               continueProcessing s \<and> cycles_in_flight s = 1 \<and> cycles_in_flight s' = 0"
  proof (intro allI impI)
    fix s' assume a: "step s s' \<and> ticks_scheduled s' \<noteq> ticks_scheduled s"
    with scheduling_step [of s s'] have "continueProcessing s" and "cycles_in_flight s' < cycles_in_flight s"
      by simp_all
    with inv show "continueProcessing s \<and> cycles_in_flight s = 1 \<and> cycles_in_flight s' = 0"
      by simp
  qed
  have stp: "\<forall>s'. \<not> continueProcessing s \<and> step\<^sup>*\<^sup>* s s' \<longrightarrow>
               \<not> continueProcessing s' \<and> ticks_scheduled s' = ticks_scheduled s \<and>
               cycles_started s' = cycles_started s"
  proof (intro allI impI)
    fix s' assume a: "\<not> continueProcessing s \<and> step\<^sup>*\<^sup>* s s'"
    then have "step\<^sup>*\<^sup>* s s'" and "\<not> continueProcessing s" by simp_all
    then show "\<not> continueProcessing s' \<and> ticks_scheduled s' = ticks_scheduled s \<and>
               cycles_started s' = cycles_started s"
      by (rule stopped_steps)
  qed
  have one: "cycles_in_flight s \<le> 1" using inv by simp
  from one inv sch stp show ?thesis by (intro conjI)
qed

theorem C10_cycles_witness:
  "step\<^sup>*\<^sup>* registered stopped_waiting \<and>
   timers_pending stopped_waiting = 1 \<and>
   cycles_in_flight stopped_waiting + timers_pending stopped_waiting \<le> 1 \<and>
   \<not> continueProcessing stopped_waiting \<and>
   step\<^sup>*\<^sup>* stopped_waiting stopped_fired \<and>
   ticks_scheduled stopped_fired = ticks_scheduled stopped_waiting \<and>
   cycles_started stopped_fired = cycles_started stopped_waiting"
proof -
  have "0 < cycles_in_flight registered"
    by (simp add: registered_def timer_def)
  then have s1: "step registered after_first_cycle"
    unfolding after_first_cycle_def by (rule step.cycle_done)
  have s2: "step after_first_cycle stopped_waiting"
    unfolding stopped_waiting_def by (rule step.pre_stop)
  from s1 s2 have reach: "step\<^sup>*\<^sup>* registered stopped_waiting"
    by (meson r_into_rtranclp rtranclp.rtrancl_into_rtrancl)
  have pend: "timers_pending stopped_waiting = 1"
    by (simp add: stopped_waiting_def after_first_cycle_def registered_def timer_def
        updateHooks_callback_def onPreStop_def)
  then have "0 < timers_pending stopped_waiting" by simp
  then have "step stopped_waiting stopped_fired"
    unfolding stopped_fired_def by (rule step.timer_fires)
  then have later: "step\<^sup>*\<^sup>* stopped_waiting stopped_fired"
    by (rule r_into_rtranclp)
  have down: "\<not> continueProcessing stopped_waiting"
    by (simp add: stopped_waiting_def onPreStop_def)
  from C10_cycles_never_overlap [OF reach] down later
  have "cycles_in_flight stopped_waiting + timers_pending stopped_waiting \<le> 1 \<and>
        ticks_scheduled stopped_fired = ticks_scheduled stopped_waiting \<and>
        cycles_started stopped_fired = cycles_started stopped_waiting"
    by blast
  with reach pend down later show ?thesis by blast
qed

section \<open>Properties of retrying\<close>

text \<open>
  Claim C7, at inputs where the code departs from it. The hook with the id 3 is
  stored as failed: the call of \<open>retryHook\<close> leaves it failed, runs nothing and
  never calls the callback, where the claim has it set to processing, executed and
  its result returned. No hook has the id 9: the callback is not called with
  \<open>NotFound\<close>, it is not called at all.
\<close>

theorem C7_retry_does_nothing:
  "findOne [job_due, job_retry] 3 = Some job_retry \<and>
   status job_retry = Failed \<and>
   retryHook mail_server welcome_settings [job_due, job_retry] 3 = ([job_due, job_retry], []) \<and>
   findOne [job_due, job_retry] 9 = None \<and>
   retryHook mail_server welcome_settings [job_due, job_retry] 9 = ([job_due, job_retry], [])"
  by (simp add: retryHook_def job_due_def job_retry_def)

end
